theory Spec2Isabelle
  imports Complex_Main "HOL-Library.Word"
begin

unbundle bit_operations_syntax

section \<open>Audio buffers\<close>

text \<open>
  The Web Audio \<open>AudioBuffer\<close> as far as the program reads it: the number of channels,
  the number of sample frames (the JavaScript property \<open>length\<close>), the sample rate and
  one sample sequence per channel. The property \<open>duration\<close> is the number of frames
  divided by the sample rate.

  Times and samples are modelled as exact real numbers. Every finite IEEE value is one
  of them; rounding of sums of times is not modelled.
\<close>

record AudioBuffer =
  numberOfChannels :: nat
  frameLength :: nat
  sampleRate :: real
  channelData :: "real list list"

definition duration :: "AudioBuffer \<Rightarrow> real" where
  "duration buf = real (frameLength buf) / sampleRate buf"

section \<open>Errors\<close>

text \<open>
  The exceptions the modelled code can raise: \<open>NotSupportedError\<close> from
  \<open>createBuffer\<close>, \<open>InvalidCharacterError\<close> from \<open>atob\<close>, \<open>RangeError\<close> from a
  \<open>DataView\<close> read outside the view, \<open>TypeError\<close> from reading a property of
  \<open>undefined\<close>.
\<close>

datatype error = NotSupportedError | InvalidCharacterError | RangeError | TypeError

section \<open>Numbers of the sample arrays\<close>

text \<open>
  An element of a \<open>Float32Array\<close>: a finite value, an infinity or NaN. A finite value
  is the real number it denotes. The products formed below (a 24-bit significand times
  a 16-bit constant) are exact in double precision, so no rounding is involved.
\<close>

datatype float = Finite real | PosInf | NegInf | NaN

fun Math_min :: "float \<Rightarrow> float \<Rightarrow> float" where
  "Math_min NaN y = NaN"
| "Math_min x NaN = NaN"
| "Math_min NegInf y = NegInf"
| "Math_min x NegInf = NegInf"
| "Math_min PosInf y = y"
| "Math_min x PosInf = x"
| "Math_min (Finite a) (Finite b) = Finite (min a b)"

fun Math_max :: "float \<Rightarrow> float \<Rightarrow> float" where
  "Math_max NaN y = NaN"
| "Math_max x NaN = NaN"
| "Math_max PosInf y = PosInf"
| "Math_max x PosInf = PosInf"
| "Math_max NegInf y = y"
| "Math_max x NegInf = x"
| "Math_max (Finite a) (Finite b) = Finite (max a b)"

text \<open>The comparison \<open>x < y\<close>: false when either side is NaN.\<close>

fun js_less :: "float \<Rightarrow> float \<Rightarrow> bool" where
  "js_less NaN y = False"
| "js_less x NaN = False"
| "js_less (Finite a) (Finite b) = (a < b)"
| "js_less NegInf NegInf = False"
| "js_less NegInf y = True"
| "js_less x PosInf = (x \<noteq> PosInf)"
| "js_less x y = False"

fun js_sgn :: "float \<Rightarrow> real" where
  "js_sgn (Finite a) = sgn a"
| "js_sgn PosInf = 1"
| "js_sgn NegInf = - 1"
| "js_sgn NaN = 0"

fun js_times :: "float \<Rightarrow> float \<Rightarrow> float" where
  "js_times (Finite a) (Finite b) = Finite (a * b)"
| "js_times NaN y = NaN"
| "js_times x NaN = NaN"
| "js_times x y =
     (if 0 < js_sgn x * js_sgn y then PosInf
      else if js_sgn x * js_sgn y < 0 then NegInf else NaN)"

text \<open>
  Storing a number into an \<open>Int16Array\<close>: NaN and the infinities become 0, a finite
  value is truncated towards zero and reduced modulo \<open>2 ^ 16\<close>.
\<close>

fun ToInt16 :: "float \<Rightarrow> 16 word" where
  "ToInt16 (Finite x) = word_of_int (if x < 0 then \<lceil>x\<rceil> else \<lfloor>x\<rfloor>)"
| "ToInt16 x = 0"

section \<open>Transport encoding (audioUtils.ts, decodeBase64 and encodeBase64)\<close>

text \<open>
  \<open>btoa\<close> and \<open>atob\<close> are functions of the platform. They are modelled after their
  standard: \<open>btoa\<close> is Base64 with padding, \<open>atob\<close> is the forgiving decoder, which
  removes ASCII whitespace, takes off one or two padding characters from an input whose
  length is a multiple of four, and fails on a length of one modulo four or on a
  character outside the alphabet. A binary string is a \<open>string\<close>: its characters are the
  code units 0 to 255.
\<close>

definition b64_char :: "nat \<Rightarrow> char" where
  "b64_char i =
     (if i < 26 then char_of (65 + i)
      else if i < 52 then char_of (97 + (i - 26))
      else if i < 62 then char_of (48 + (i - 52))
      else if i = 62 then CHR ''+'' else CHR ''/'')"

text \<open>The place of a character in the alphabet; 64 for a character outside it.\<close>

definition b64_index :: "char \<Rightarrow> nat" where
  "b64_index c =
     (let n = (of_char c :: nat) in
      if 65 \<le> n \<and> n \<le> 90 then n - 65
      else if 97 \<le> n \<and> n \<le> 122 then n - 97 + 26
      else if 48 \<le> n \<and> n \<le> 57 then n - 48 + 52
      else if n = 43 then 62
      else if n = 47 then 63
      else 64)"

fun b64_sextets :: "nat list \<Rightarrow> nat list" where
  "b64_sextets (a # b # c # rest) =
     [a div 4, (a mod 4) * 16 + b div 16, (b mod 16) * 4 + c div 64, c mod 64] @ b64_sextets rest"
| "b64_sextets [a, b] = [a div 4, (a mod 4) * 16 + b div 16, (b mod 16) * 4]"
| "b64_sextets [a] = [a div 4, (a mod 4) * 16]"
| "b64_sextets [] = []"

fun b64_octets :: "nat list \<Rightarrow> nat list" where
  "b64_octets (p # q # r # s # rest) =
     [p * 4 + q div 16, (q mod 16) * 16 + r div 4, (r mod 4) * 64 + s] @ b64_octets rest"
| "b64_octets [p, q, r] = [p * 4 + q div 16, (q mod 16) * 16 + r div 4]"
| "b64_octets [p, q] = [p * 4 + q div 16]"
| "b64_octets ps = []"

definition btoa :: "string \<Rightarrow> string" where
  "btoa s = map b64_char (b64_sextets (map of_char s))
              @ replicate ((3 - length s mod 3) mod 3) (CHR ''='')"

definition ascii_whitespace :: "char \<Rightarrow> bool" where
  "ascii_whitespace c = ((of_char c :: nat) \<in> {9, 10, 12, 13, 32})"

definition strip_padding :: "string \<Rightarrow> string" where
  "strip_padding d =
     (if length d mod 4 = 0 \<and> d \<noteq> [] \<and> last d = CHR ''=''
      then (if butlast d \<noteq> [] \<and> last (butlast d) = CHR ''='' then butlast (butlast d)
            else butlast d)
      else d)"

definition atob :: "string \<Rightarrow> error + string" where
  "atob s =
     (let d = strip_padding (filter (\<lambda>c. \<not> ascii_whitespace c) s) in
      if length d mod 4 = 1 then Inl InvalidCharacterError
      else if list_ex (\<lambda>c. b64_index c = 64) d then Inl InvalidCharacterError
      else Inr (map char_of (b64_octets (map b64_index d))))"

text \<open>
  \<open>decodeBase64\<close> copies the code units of \<open>atob base64\<close> into a \<open>Uint8Array\<close>;
  \<open>encodeBase64\<close> builds the binary string of the bytes and hands it to \<open>btoa\<close>.
\<close>

definition decodeBase64 :: "string \<Rightarrow> error + 8 word list" where
  "decodeBase64 base64 =
     (case atob base64 of
        Inl e \<Rightarrow> Inl e
      | Inr binaryString \<Rightarrow> Inr (map (\<lambda>c. word_of_nat (of_char c)) binaryString))"

definition encodeBase64 :: "8 word list \<Rightarrow> string" where
  "encodeBase64 bytes = btoa (map (\<lambda>b. char_of (unat b)) bytes)"

section \<open>PCM decoding (audioUtils.ts, pcmToAudioBuffer)\<close>

text \<open>
  The audio context as far as \<open>createBuffer\<close> depends on it: the channel count and the
  sample rates the implementation supports. \<open>createBuffer\<close> raises
  \<open>NotSupportedError\<close> when the channel count or the length is zero or an argument is
  outside that range; otherwise the buffer holds silence. Its length parameter is an
  IDL \<open>unsigned long\<close>, so a fractional argument is truncated by the caller's conversion
  (lengths are taken to stay below \<open>2 ^ 32\<close>).
\<close>

record AudioContext =
  maxChannels :: nat
  minSampleRate :: real
  maxSampleRate :: real

definition createBuffer :: "AudioContext \<Rightarrow> nat \<Rightarrow> nat \<Rightarrow> real \<Rightarrow> error + AudioBuffer" where
  "createBuffer ctx numChannels len rate =
     (if numChannels = 0 \<or> maxChannels ctx < numChannels \<or> len = 0
         \<or> rate < minSampleRate ctx \<or> maxSampleRate ctx < rate
      then Inl NotSupportedError
      else Inr \<lparr>numberOfChannels = numChannels, frameLength = len, sampleRate = rate,
                channelData = replicate numChannels (replicate len 0)\<rparr>)"

text \<open>
  \<open>dataView.getInt16(offset, true)\<close>: the two bytes at \<open>offset\<close>, low byte first, as a
  signed number; \<open>RangeError\<close> when they are not both inside the view.
\<close>

definition getInt16 :: "8 word list \<Rightarrow> nat \<Rightarrow> error + int" where
  "getInt16 bytes offset =
     (if offset + 2 \<le> length bytes
      then Inr (sint (word_cat (bytes ! (offset + 1)) (bytes ! offset) :: 16 word))
      else Inl RangeError)"

text \<open>A store into a typed array: an index outside the array is ignored.\<close>

definition store :: "'a list \<Rightarrow> nat \<Rightarrow> 'a \<Rightarrow> 'a list" where
  "store xs i v = (if i < length xs then xs[i := v] else xs)"

text \<open>
  The inner loop, lines 38 to 44, over the values of \<open>i\<close> still to come:
  \<^verbatim>\<open>const offset = (i * numChannels + channel) * 2;
if (offset + 1 < data.byteLength)
  channelData[i] = dataView.getInt16(offset, true) / 32768.0;\<close>
\<close>

fun fillChannel :: "8 word list \<Rightarrow> nat \<Rightarrow> nat \<Rightarrow> nat list \<Rightarrow> real list \<Rightarrow> error + real list" where
  "fillChannel bytes numChannels channel [] cd = Inr cd"
| "fillChannel bytes numChannels channel (i # rest) cd =
     (let offset = (i * numChannels + channel) * 2 in
      if offset + 1 < length bytes
      then (case getInt16 bytes offset of
              Inl e \<Rightarrow> Inl e
            | Inr v \<Rightarrow> fillChannel bytes numChannels channel rest (store cd i (real_of_int v / 32768)))
      else fillChannel bytes numChannels channel rest cd)"

text \<open>
  The outer loop, lines 36 to 45, over the channels still to come. \<open>frameCount\<close> is the
  quotient of line 32, which need not be whole: \<open>i < frameCount\<close> holds for the
  \<open>i\<close> below its ceiling.
\<close>

fun fillBuffer :: "8 word list \<Rightarrow> nat \<Rightarrow> real \<Rightarrow> nat list \<Rightarrow> AudioBuffer \<Rightarrow> error + AudioBuffer" where
  "fillBuffer bytes numChannels frameCount [] buffer = Inr buffer"
| "fillBuffer bytes numChannels frameCount (channel # rest) buffer =
     (case fillChannel bytes numChannels channel [0 ..< nat \<lceil>frameCount\<rceil>] (channelData buffer ! channel) of
        Inl e \<Rightarrow> Inl e
      | Inr cd \<Rightarrow>
          fillBuffer bytes numChannels frameCount rest
            (buffer\<lparr>channelData := (channelData buffer)[channel := cd]\<rparr>))"

definition pcmToAudioBuffer ::
    "8 word list \<Rightarrow> AudioContext \<Rightarrow> real \<Rightarrow> nat \<Rightarrow> error + AudioBuffer" where
  "pcmToAudioBuffer bytes ctx rate numChannels =
     (if length bytes = 0 then createBuffer ctx numChannels 1 rate
      else
        let frameCount = real (length bytes) / real (2 * numChannels) in
        case createBuffer ctx numChannels (nat \<lfloor>frameCount\<rfloor>) rate of
          Inl e \<Rightarrow> Inl e
        | Inr buffer \<Rightarrow> fillBuffer bytes numChannels frameCount [0 ..< numChannels] buffer)"

section \<open>PCM encoding (audioUtils.ts, createPCMBlob)\<close>

text \<open>
  Lines 57 to 59 for one element of the input:
  \<^verbatim>\<open>const s = Math.max(-1, Math.min(1, data[i]));
int16[i] = s < 0 ? s * 0x8000 : s * 0x7FFF;\<close>
\<close>

definition sampleToInt16 :: "float \<Rightarrow> 16 word" where
  "sampleToInt16 d =
     (let s = Math_max (Finite (- 1)) (Math_min (Finite 1) d) in
      ToInt16 (if js_less s (Finite 0) then js_times s (Finite 32768)
               else js_times s (Finite 32767)))"

text \<open>
  \<open>new Uint8Array(int16.buffer)\<close>: the bytes of the array in the byte order of the
  platform, which is taken to be little-endian.
\<close>

definition int16Bytes :: "16 word list \<Rightarrow> 8 word list" where
  "int16Bytes ws = concat (map (\<lambda>w. [ucast w, ucast (drop_bit 8 w)]) ws)"

definition createPCMBlob :: "float list \<Rightarrow> string" where
  "createPCMBlob data = encodeBase64 (int16Bytes (map sampleToInt16 data))"

section \<open>The specification's codec, for comparison\<close>

text \<open>
  What the specification says of \<open>encode\<close>, written out for one sample and for a
  sequence: clamp to \<open>[-1, 1]\<close>, scale a negative value by 32768 and any other by
  32767, round towards zero, write the number as two bytes, low byte first.
\<close>

definition spec_encode_sample :: "real \<Rightarrow> int" where
  "spec_encode_sample x =
     (let c = max (- 1) (min 1 x);
          scaled = (if c < 0 then c * 32768 else c * 32767)
      in if 0 \<le> scaled then \<lfloor>scaled\<rfloor> else - \<lfloor>- scaled\<rfloor>)"

definition spec_le16 :: "int \<Rightarrow> 8 word list" where
  "spec_le16 v = [word_of_int (v mod 256), word_of_int (v div 256 mod 256)]"

definition spec_encode :: "real list \<Rightarrow> 8 word list" where
  "spec_encode samples = concat (map (\<lambda>x. spec_le16 (spec_encode_sample x)) samples)"

section \<open>Decoding a received fragment (App.tsx, line 235)\<close>

text \<open>
  \<^verbatim>\<open>await pcmToAudioBuffer(decodeBase64(part.inlineData.data), outputCtx, 24000, 1)\<close>
\<close>

definition decodeAudio :: "AudioContext \<Rightarrow> string \<Rightarrow> error + AudioBuffer" where
  "decodeAudio ctx base64 =
     (case decodeBase64 base64 of
        Inl e \<Rightarrow> Inl e
      | Inr bytes \<Rightarrow> pcmToAudioBuffer bytes ctx 24000 1)"

text \<open>
  The value of the sample at a byte offset, and the samples of the complete frames of a
  byte sequence, channel by channel.
\<close>

definition pcmSample :: "8 word list \<Rightarrow> nat \<Rightarrow> real" where
  "pcmSample bytes offset =
     real_of_int (sint (word_cat (bytes ! (offset + 1)) (bytes ! offset) :: 16 word)) / 32768"

definition fullFrames :: "8 word list \<Rightarrow> nat \<Rightarrow> real list list" where
  "fullFrames bytes numChannels =
     map (\<lambda>channel. map (\<lambda>i. pcmSample bytes ((i * numChannels + channel) * 2))
                         [0 ..< length bytes div (2 * numChannels)])
         [0 ..< numChannels]"

text \<open>
  The limits every implementation of the audio context has to support: 32 channels and
  sample rates from 8000 Hz to 96000 Hz.
\<close>

definition minimalContext :: AudioContext where
  "minimalContext = \<lparr>maxChannels = 32, minSampleRate = 8000, maxSampleRate = 96000\<rparr>"

section \<open>Playback scheduling (App.tsx, onmessage)\<close>

text \<open>
  The two refs the message handler schedules with: \<open>nextStartTimeRef\<close>, the cursor, and
  \<open>audioSourcesRef\<close>, the set of buffer source nodes that have been started and have
  not ended. A node is an object with an identity; here it is the number of nodes created
  before it, kept in \<open>nodeCount\<close>.
\<close>

record Scheduler =
  nextStartTime :: real
  audioSources :: "nat list"
  nodeCount :: nat

text \<open>
  Lines 236 to 244, for one decoded buffer, with \<open>now\<close> the value read from
  \<open>outputCtx.currentTime\<close>:
  \<^verbatim>\<open>if (nextStartTimeRef.current < now) nextStartTimeRef.current = now + 0.05;
source.start(nextStartTimeRef.current);
nextStartTimeRef.current += buf.duration;
audioSourcesRef.current.add(source);\<close>
  The result is the time handed to \<open>source.start\<close> and the refs afterwards.
\<close>

definition enqueue :: "real \<Rightarrow> AudioBuffer \<Rightarrow> Scheduler \<Rightarrow> real \<times> Scheduler" where
  "enqueue now buf s =
     (let source = nodeCount s;
          start = (if nextStartTime s < now then now + 0.05 else nextStartTime s)
      in (start,
          s\<lparr>nextStartTime := start + duration buf,
            audioSources := audioSources s @ [source],
            nodeCount := Suc source\<rparr>))"

text \<open>The \<open>onended\<close> callback of a node removes it from the set.\<close>

definition onended :: "nat \<Rightarrow> Scheduler \<Rightarrow> Scheduler" where
  "onended source s = s\<lparr>audioSources := removeAll source (audioSources s)\<rparr>"

text \<open>
  Lines 249 to 253, taken when the message carries \<open>interrupted\<close>: every node of the set
  is stopped, the set is cleared and the cursor is set to zero. The result is the list
  of stopped nodes and the refs afterwards.
\<close>

definition interrupt :: "Scheduler \<Rightarrow> nat list \<times> Scheduler" where
  "interrupt s = (audioSources s, s\<lparr>audioSources := [], nextStartTime := 0\<rparr>)"

text \<open>
  A run of buffers scheduled one after the other with nothing else touching the cursor,
  each with the clock value read when it is scheduled. The result lists, in order, the
  start time and the duration of every buffer.
\<close>

fun enqueue_seq :: "Scheduler \<Rightarrow> (real \<times> AudioBuffer) list \<Rightarrow> (real \<times> real) list" where
  "enqueue_seq s [] = []"
| "enqueue_seq s ((now, buf) # rest) =
     (fst (enqueue now buf s), duration buf) # enqueue_seq (snd (enqueue now buf s)) rest"

section \<open>The presentation (types.ts; App.tsx, handleUpdateCurrentSlide)\<close>

text \<open>
  A slide is an object: a map from property names to values. A \<open>Partial<Slide>\<close> is
  one too. The array of slides may have holes, which read as \<open>undefined\<close>; an element
  is \<open>None\<close> there.
\<close>

type_synonym 'v Slide = "string \<rightharpoonup> 'v"

record 'v Presentation =
  id' :: string
  title :: string
  slides :: "'v Slide option list"
  sources :: "(string \<times> string) list option"

text \<open>
  Reading and writing an array element. A read outside the array is \<open>undefined\<close>; a
  write outside it extends the array, leaving holes in between.
\<close>

definition array_get :: "'a option list \<Rightarrow> nat \<Rightarrow> 'a option" where
  "array_get xs i = (if i < length xs then xs ! i else None)"

definition array_set :: "'a option list \<Rightarrow> nat \<Rightarrow> 'a option \<Rightarrow> 'a option list" where
  "array_set xs i v =
     (if i < length xs then xs[i := v] else xs @ replicate (i - length xs) None @ [v])"

text \<open>The properties an object spread \<open>...obj\<close> contributes: none for \<open>undefined\<close>.\<close>

definition spread :: "('k \<rightharpoonup> 'v) option \<Rightarrow> ('k \<rightharpoonup> 'v)" where
  "spread obj = (case obj of None \<Rightarrow> Map.empty | Some m \<Rightarrow> m)"

text \<open>
  Lines 73 to 81, the function handed to \<open>setPresentation\<close>:
  \<^verbatim>\<open>const news = [...prev.slides];
news[activeSlideIndex] = { ...news[activeSlideIndex], ...updates };
const updated = { ...prev, slides: news };\<close>
  The copy written to local storage is the value returned.
\<close>

definition handleUpdateCurrentSlide ::
    "nat \<Rightarrow> 'v Slide option \<Rightarrow> 'v Presentation \<Rightarrow> 'v Presentation" where
  "handleUpdateCurrentSlide activeSlideIndex updates prev =
     (let news = slides prev;
          news = array_set news activeSlideIndex
                   (Some (spread (array_get news activeSlideIndex) ++ spread updates))
      in prev\<lparr>slides := news\<rparr>)"

text \<open>The values of the slides of the initial state, lines 26 to 35.\<close>

datatype jsval = JString string | JStrings "string list"

definition initialPresentation :: "jsval Presentation" where
  "initialPresentation =
     \<lparr>id' = ''1'',
      title = ''Pr'' @ [CHR 0xE4] @ ''sentations-KI'',
      slides =
        [Some [''id'' \<mapsto> JString ''1'',
               ''title'' \<mapsto> JString (''Bereit f'' @ [CHR 0xFC] @ ''r Ihre Vision''),
               ''content'' \<mapsto> JStrings
                  [''Klicken Sie auf das Mikrofon'',
                   ''Sprechen Sie: '' @ [CHR 0x22] @ ''Erstelle eine Pr'' @ [CHR 0xE4]
                     @ ''sentation '' @ [CHR 0xFC] @ ''ber [Thema]'' @ [CHR 0x22]],
               ''layout'' \<mapsto> JString ''TITLE'']],
      sources = None\<rparr>"

section \<open>The live session (App.tsx, startLive, stopLive and the message handler)\<close>

datatype status = idle | connecting | active

text \<open>
  What the component does to the world outside it: the requests for the microphone,
  the audio contexts created, the channel opened, the releases of \<open>stopLive\<close>, the
  alert, the call of \<open>handleGenerate\<close> with its argument, the tool responses sent, and
  the buffer sources started and stopped.
\<close>

datatype 'v effect =
    GetUserMedia
  | NewAudioContext real
  | LiveConnect
  | SessionClose
  | CancelAnimationFrame
  | DisconnectProcessor
  | StopTracks
  | CloseAudioContext
  | Alert
  | CallHandleGenerate "'v option"
  | SendToolResponse "string option" "string option"
  | SourceStart nat real
  | SourceStop nat

text \<open>
  \<open>startLive\<close> is an \<open>async\<close> function with three \<open>await\<close>s, at lines 121, 135 and
  136. A call that has reached one of them is suspended there until the promise settles,
  and other handlers run in between. A suspended call is known by the \<open>await\<close> it is at.
\<close>

datatype start_phase = AwaitingUserMedia | AwaitingInputResume | AwaitingOutputResume

text \<open>
  How a suspended call goes on: the promise is rejected; or it is fulfilled and the code
  runs through to the next \<open>await\<close> or to the end; or it is fulfilled and the code
  then throws, at the construction of the audio contexts (line 132), while the signal
  chain is built (line 142), or when the channel is opened (line 189).
\<close>

datatype settlement =
  Fulfilled | Rejected | ThrowsAtContexts | ThrowsAtChain | ThrowsAtConnect

text \<open>
  The state of the component that the session reads and writes. A ref is \<open>True\<close> when
  it holds an object. \<open>pendingStarts\<close> lists the suspended calls of \<open>startLive\<close>. The
  levels shown by the visualiser are left out.
\<close>

record 'v App =
  presentation :: "'v Presentation"
  activeSlideIndex :: nat
  connectionStatus :: status
  liveTranscription :: string
  sessionPromiseRef :: bool
  streamRef :: bool
  scriptProcessorRef :: bool
  animationFrameRef :: bool
  inputAudioCtxRef :: bool
  outputAudioCtxRef :: bool
  scheduler :: Scheduler
  pendingStarts :: "start_phase list"

definition initialApp :: "jsval App" where
  "initialApp =
     \<lparr>presentation = initialPresentation, activeSlideIndex = 0, connectionStatus = idle,
      liveTranscription = [], sessionPromiseRef = False, streamRef = False,
      scriptProcessorRef = False, animationFrameRef = False, inputAudioCtxRef = False,
      outputAudioCtxRef = False,
      scheduler = \<lparr>nextStartTime = 0, audioSources = [], nodeCount = 0\<rparr>,
      pendingStarts = []\<rparr>"

text \<open>
  \<open>startLive\<close> up to its first \<open>await\<close>, lines 116 to 121: the status is set and the
  microphone is requested. The function reads no state before it acts.
\<close>

definition startLive :: "'v App \<Rightarrow> 'v App \<times> 'v effect list" where
  "startLive s =
     (s\<lparr>connectionStatus := connecting,
        pendingStarts := pendingStarts s @ [AwaitingUserMedia]\<rparr>,
      [GetUserMedia])"

text \<open>
  The \<open>catch\<close> block, lines 268 to 271, ending the suspended call \<open>k\<close>. It releases
  nothing.
\<close>

definition catchStart :: "nat \<Rightarrow> 'v App \<Rightarrow> 'v App \<times> 'v effect list" where
  "catchStart k s =
     (s\<lparr>connectionStatus := idle,
        pendingStarts := take k (pendingStarts s) @ drop (Suc k) (pendingStarts s)\<rparr>,
      [Alert])"

text \<open>
  The rest of \<open>startLive\<close>, from the \<open>await\<close> the call \<open>k\<close> is suspended at. After the
  microphone is granted the stream is stored and the contexts are created (lines 129 to
  133); after the second \<open>resume\<close> the contexts are stored (lines 138, 139), the chain is
  built (lines 142 to 160), the visualiser is started (line 186) and the channel is
  opened and stored (lines 189 to 267). A combination that cannot occur changes nothing.
\<close>

fun continueStart ::
    "start_phase \<Rightarrow> settlement \<Rightarrow> nat \<Rightarrow> 'v App \<Rightarrow> 'v App \<times> 'v effect list" where
  "continueStart AwaitingUserMedia Fulfilled k s =
     (s\<lparr>streamRef := True,
        pendingStarts := (pendingStarts s)[k := AwaitingInputResume]\<rparr>,
      [NewAudioContext 16000, NewAudioContext 24000])"
| "continueStart AwaitingUserMedia ThrowsAtContexts k s =
     catchStart k (s\<lparr>streamRef := True\<rparr>)"
| "continueStart AwaitingUserMedia Rejected k s = catchStart k s"
| "continueStart AwaitingInputResume Fulfilled k s =
     (s\<lparr>pendingStarts := (pendingStarts s)[k := AwaitingOutputResume]\<rparr>, [])"
| "continueStart AwaitingInputResume Rejected k s = catchStart k s"
| "continueStart AwaitingOutputResume Fulfilled k s =
     (s\<lparr>inputAudioCtxRef := True, outputAudioCtxRef := True,
        scriptProcessorRef := True, animationFrameRef := True, sessionPromiseRef := True,
        pendingStarts := take k (pendingStarts s) @ drop (Suc k) (pendingStarts s)\<rparr>,
      [LiveConnect])"
| "continueStart AwaitingOutputResume ThrowsAtChain k s =
     catchStart k (s\<lparr>inputAudioCtxRef := True, outputAudioCtxRef := True\<rparr>)"
| "continueStart AwaitingOutputResume ThrowsAtConnect k s =
     catchStart k (s\<lparr>inputAudioCtxRef := True, outputAudioCtxRef := True,
                     scriptProcessorRef := True, animationFrameRef := True\<rparr>)"
| "continueStart AwaitingOutputResume Rejected k s = catchStart k s"
| "continueStart phase r k s = (s, [])"

definition startLive_resume :: "nat \<Rightarrow> settlement \<Rightarrow> 'v App \<Rightarrow> 'v App \<times> 'v effect list" where
  "startLive_resume k r s =
     (if k < length (pendingStarts s) then continueStart (pendingStarts s ! k) r k s
      else (s, []))"

text \<open>The \<open>onopen\<close> callback of the channel.\<close>

definition onopen :: "'v App \<Rightarrow> 'v App" where
  "onopen s = s\<lparr>connectionStatus := active\<rparr>"

text \<open>\<open>stopLive\<close>, lines 274 to 289.\<close>

definition stopLive :: "'v App \<Rightarrow> 'v App \<times> 'v effect list" where
  "stopLive s =
     (s\<lparr>sessionPromiseRef := False, connectionStatus := idle, liveTranscription := [],
        scheduler := (scheduler s)\<lparr>nextStartTime := 0\<rparr>\<rparr>,
      (if sessionPromiseRef s then [SessionClose] else [])
      @ (if animationFrameRef s then [CancelAnimationFrame] else [])
      @ (if scriptProcessorRef s then [DisconnectProcessor] else [])
      @ (if streamRef s then [StopTracks] else [])
      @ (if inputAudioCtxRef s then [CloseAudioContext] else [])
      @ (if outputAudioCtxRef s then [CloseAudioContext] else []))"

text \<open>
  The microphone button, line 341, the only caller of \<open>startLive\<close>:
  \<^verbatim>\<open>onClick={connectionStatus === 'idle' ? startLive : stopLive}\<close>
\<close>

definition onClick :: "'v App \<Rightarrow> 'v App \<times> 'v effect list" where
  "onClick s = (if connectionStatus s = idle then startLive s else stopLive s)"

text \<open>
  A function call of a tool-call message. The library declares \<open>id\<close>, \<open>name\<close> and
  \<open>args\<close> optional; \<open>None\<close> is \<open>undefined\<close>.
\<close>

record 'v FunctionCall =
  callId :: "string option"
  name :: "string option"
  args :: "(string \<rightharpoonup> 'v) option"

text \<open>
  A server message as far as the handler reads it: the two transcriptions, the function
  calls of \<open>toolCall\<close>, the parts of the model turn, each with its
  \<open>inlineData.data\<close> and the value \<open>outputCtx.currentTime\<close> has when the part is
  scheduled, and the interruption flag.
\<close>

record 'v LiveServerMessage =
  inputTranscription :: "string option"
  outputTranscription :: "string option"
  toolCall :: "'v FunctionCall list option"
  parts :: "(string option \<times> real) list option"
  interrupted :: bool

text \<open>
  The handler is an \<open>async\<close> function: an exception ends it where it is raised, with
  the state written and the effects done so far. An outcome is the state, the effects
  and the exception, if any.
\<close>

type_synonym 'v outcome = "'v App \<times> 'v effect list \<times> error option"

text \<open>
  Lines 219 to 228, the loop over the function calls. \<open>(fc.args as any).topic\<close> raises
  \<open>TypeError\<close> when \<open>fc.args\<close> is \<open>undefined\<close>; the spread of an undefined
  \<open>updates\<close> in \<open>handleUpdateCurrentSlide\<close> does not.
\<close>

fun dispatchCalls :: "'v FunctionCall list \<Rightarrow> 'v App \<Rightarrow> 'v effect list \<Rightarrow> 'v outcome" where
  "dispatchCalls [] s out = (s, out, None)"
| "dispatchCalls (fc # rest) s out =
     (if name fc = Some ''create_presentation''
      then (case args fc of
              None \<Rightarrow> (s, out, Some TypeError)
            | Some a \<Rightarrow>
                dispatchCalls rest s
                  (out @ [CallHandleGenerate (a ''topic''),
                          SendToolResponse (callId fc) (name fc)]))
      else if name fc = Some ''update_slide''
      then dispatchCalls rest
             (s\<lparr>presentation :=
                  handleUpdateCurrentSlide (activeSlideIndex s) (args fc) (presentation s)\<rparr>)
             (out @ [SendToolResponse (callId fc) (name fc)])
      else dispatchCalls rest s (out @ [SendToolResponse (callId fc) (name fc)]))"

text \<open>
  Lines 233 to 246, the loop over the parts. A part without data, or with the empty
  string, is passed over.
\<close>

fun playParts ::
    "AudioContext \<Rightarrow> (string option \<times> real) list \<Rightarrow> 'v App \<Rightarrow> 'v effect list \<Rightarrow> 'v outcome" where
  "playParts ctx [] s out = (s, out, None)"
| "playParts ctx ((d, now) # rest) s out =
     (case d of
        None \<Rightarrow> playParts ctx rest s out
      | Some base64 \<Rightarrow>
          if base64 = [] then playParts ctx rest s out
          else (case decodeAudio ctx base64 of
                  Inl e \<Rightarrow> (s, out, Some e)
                | Inr buf \<Rightarrow>
                    playParts ctx rest
                      (s\<lparr>scheduler := snd (enqueue now buf (scheduler s))\<rparr>)
                      (out @ [SourceStart (nodeCount (scheduler s))
                                (fst (enqueue now buf (scheduler s)))])))"

text \<open>The handler, lines 211 to 254.\<close>

definition onmessage :: "AudioContext \<Rightarrow> 'v LiveServerMessage \<Rightarrow> 'v App \<Rightarrow> 'v outcome" where
  "onmessage ctx message s =
     (let s1 = (case inputTranscription message of
                  Some text \<Rightarrow> s\<lparr>liveTranscription := ''Du: '' @ text\<rparr>
                | None \<Rightarrow>
                    (case outputTranscription message of
                       Some text \<Rightarrow> s\<lparr>liveTranscription := ''KI: '' @ text\<rparr>
                     | None \<Rightarrow> s));
          (s2, out2, e2) = (case toolCall message of
                              None \<Rightarrow> (s1, [], None)
                            | Some functionCalls \<Rightarrow> dispatchCalls functionCalls s1 [])
      in if e2 \<noteq> None then (s2, out2, e2)
         else
           let (s3, out3, e3) = (case parts message of
                                   None \<Rightarrow> (s2, out2, None)
                                 | Some ps \<Rightarrow> playParts ctx ps s2 out2)
           in if e3 \<noteq> None then (s3, out3, e3)
              else if interrupted message
              then (s3\<lparr>scheduler := snd (interrupt (scheduler s3))\<rparr>,
                    out3 @ map SourceStop (fst (interrupt (scheduler s3))), None)
              else (s3, out3, None))"

text \<open>The tool responses among the effects.\<close>

fun isToolResponse :: "'v effect \<Rightarrow> bool" where
  "isToolResponse (SendToolResponse i n) = True"
| "isToolResponse e = False"

section \<open>Properties of the playback scheduler\<close>

lemma enqueue_start_ge_cursor: "nextStartTime s \<le> fst (enqueue now buf s)"
  by (simp add: enqueue_def Let_def)

lemma enqueue_cursor: "nextStartTime (snd (enqueue now buf s)) = fst (enqueue now buf s) + duration buf"
  by (simp add: enqueue_def Let_def)

lemma enqueue_seq_length: "length (enqueue_seq s xs) = length xs"
  by (induction xs arbitrary: s) auto

lemma enqueue_seq_first:
  "xs \<noteq> [] \<Longrightarrow> nextStartTime s \<le> fst (enqueue_seq s xs ! 0)"
  by (cases xs) (auto simp: enqueue_start_ge_cursor)

text \<open>
  C1, as the specification states it, fails: with the cursor at 1.02 s and the clock at
  1 s the buffer starts at 1.02 s, whereas \<open>max (now + 0.05) cursor\<close> is 1.05 s.
\<close>

theorem enqueue_start_max_counterexample:
  "fst (enqueue 1 \<lparr>numberOfChannels = 1, frameLength = 12000, sampleRate = 24000, channelData = [replicate 12000 0]\<rparr>
         \<lparr>nextStartTime = 1.02, audioSources = [], nodeCount = 0\<rparr>)
   \<noteq> max (1 + 0.05) (nextStartTime \<lparr>nextStartTime = 1.02, audioSources = [], nodeCount = 0\<rparr>)"
  by (simp add: enqueue_def Let_def)

text \<open>
  C1, amended: a buffer starts at the cursor when the cursor is not behind the clock, and
  50 ms after the clock when the cursor is behind it. That is \<open>max (now + 0.05) cursor\<close>
  unless the cursor lies in the 50 ms from the clock onwards. After scheduling, the cursor
  is the start time plus the duration of the buffer.
\<close>

theorem enqueue_start_and_cursor:
  "fst (enqueue now buf s) = (if nextStartTime s < now then now + 0.05 else nextStartTime s)
   \<and> (nextStartTime s < now \<or> now + 0.05 \<le> nextStartTime s
        \<longrightarrow> fst (enqueue now buf s) = max (now + 0.05) (nextStartTime s))
   \<and> nextStartTime (snd (enqueue now buf s)) = fst (enqueue now buf s) + duration buf"
  by (simp add: enqueue_def Let_def max_def)

theorem enqueue_start_and_cursor_witness:
  "fst (enqueue 2 \<lparr>numberOfChannels = 1, frameLength = 12000, sampleRate = 24000, channelData = [replicate 12000 0]\<rparr>
         \<lparr>nextStartTime = 1, audioSources = [], nodeCount = 0\<rparr>) = 2.05
   \<and> (1::real) < 2
   \<and> nextStartTime (snd (enqueue 2 \<lparr>numberOfChannels = 1, frameLength = 12000, sampleRate = 24000, channelData = [replicate 12000 0]\<rparr>
         \<lparr>nextStartTime = 1, audioSources = [], nodeCount = 0\<rparr>)) = 2.55"
  using enqueue_start_and_cursor [of 2
      "\<lparr>numberOfChannels = 1, frameLength = 12000, sampleRate = 24000, channelData = [replicate 12000 0]\<rparr>"
      "\<lparr>nextStartTime = 1, audioSources = [], nodeCount = 0\<rparr>"]
  by (simp add: duration_def)

text \<open>
  C2: in a run of buffers scheduled with no interruption in between, every buffer starts
  no earlier than the end of the one before it.
\<close>

theorem enqueue_seq_non_overlapping:
  "Suc i < length xs \<Longrightarrow>
     fst (enqueue_seq s xs ! i) + snd (enqueue_seq s xs ! i) \<le> fst (enqueue_seq s xs ! Suc i)"
proof (induction xs arbitrary: s i)
  case Nil
  then show ?case by simp
next
  case (Cons x xs)
  obtain now buf where x: "x = (now, buf)" by (cases x)
  let ?s' = "snd (enqueue now buf s)"
  show ?case
  proof (cases i)
    case 0
    from Cons.prems 0 have ne: "xs \<noteq> []" by auto
    have "fst (enqueue now buf s) + duration buf = nextStartTime ?s'"
      by (simp add: enqueue_cursor)
    also have "\<dots> \<le> fst (enqueue_seq ?s' xs ! 0)"
      using ne by (rule enqueue_seq_first)
    finally show ?thesis using 0 x by simp
  next
    case (Suc j)
    with Cons.prems have "Suc j < length xs" by simp
    from Cons.IH [OF this, of ?s'] show ?thesis using Suc x by simp
  qed
qed

theorem enqueue_seq_non_overlapping_witness:
  "Suc 0 < length [(0::real, \<lparr>numberOfChannels = 1, frameLength = 12000, sampleRate = 24000, channelData = [replicate 12000 0]\<rparr>),
                   (0.1, \<lparr>numberOfChannels = 1, frameLength = 7200, sampleRate = 24000, channelData = [replicate 7200 0]\<rparr>)]
   \<and> enqueue_seq \<lparr>nextStartTime = 0, audioSources = [], nodeCount = 0\<rparr>
        [(0, \<lparr>numberOfChannels = 1, frameLength = 12000, sampleRate = 24000, channelData = [replicate 12000 0]\<rparr>),
         (0.1, \<lparr>numberOfChannels = 1, frameLength = 7200, sampleRate = 24000, channelData = [replicate 7200 0]\<rparr>)]
      = [(0, 0.5), (0.5, 0.3)]
   \<and> (0::real) + 0.5 \<le> 0.5"
  using enqueue_seq_non_overlapping [of 0
      "[(0, \<lparr>numberOfChannels = 1, frameLength = 12000, sampleRate = 24000, channelData = [replicate 12000 0]\<rparr>),
        (0.1, \<lparr>numberOfChannels = 1, frameLength = 7200, sampleRate = 24000, channelData = [replicate 7200 0]\<rparr>)]"
      "\<lparr>nextStartTime = 0, audioSources = [], nodeCount = 0\<rparr>"]
  by (simp add: enqueue_def duration_def Let_def)

text \<open>
  C3: an interruption stops the nodes in flight, empties the set and puts the cursor at
  zero; the buffer scheduled next starts no earlier than the clock, at a time that the
  cursor before the interruption has no part in.
\<close>

theorem interrupt_then_enqueue:
  "fst (interrupt s) = audioSources s
   \<and> audioSources (snd (interrupt s)) = []
   \<and> nextStartTime (snd (interrupt s)) = 0
   \<and> now \<le> fst (enqueue now buf (snd (interrupt s)))
   \<and> fst (enqueue now buf (snd (interrupt s))) = fst (enqueue now buf (snd (interrupt s')))
   \<and> fst (enqueue now buf (snd (interrupt s))) = (if 0 < now then now + 0.05 else 0)"
  by (simp add: enqueue_def interrupt_def Let_def)

section \<open>The transport encoding is reversible\<close>

lemma b64_index_char: "i < 64 \<Longrightarrow> b64_index (b64_char i) = i"
  by (auto simp: b64_index_def b64_char_def Let_def)

lemma b64_index_pad: "b64_index (CHR ''='') = 64"
  by (simp add: b64_index_def)

lemma b64_char_not_pad: "i < 64 \<Longrightarrow> b64_char i \<noteq> CHR ''=''"
  using b64_index_char [of i] b64_index_pad by auto

lemma b64_index_whitespace: "ascii_whitespace c \<Longrightarrow> b64_index c = 64"
  by (auto simp: ascii_whitespace_def b64_index_def Let_def)

lemma b64_char_not_whitespace: "i < 64 \<Longrightarrow> \<not> ascii_whitespace (b64_char i)"
  using b64_index_char [of i] b64_index_whitespace [of "b64_char i"] by auto

lemma pad_not_whitespace: "\<not> ascii_whitespace (CHR ''='')"
  by (simp add: ascii_whitespace_def)

lemma b64_octets_sextets: "\<forall>x\<in>set xs. x < 256 \<Longrightarrow> b64_octets (b64_sextets xs) = xs"
  by (induction xs rule: b64_sextets.induct) auto

lemma b64_sextets_bound: "\<forall>x\<in>set xs. x < 256 \<Longrightarrow> \<forall>y\<in>set (b64_sextets xs). y < 64"
  by (induction xs rule: b64_sextets.induct) (auto simp: less_mult_imp_div_less)

lemma b64_sextets_length:
  "length (b64_sextets xs) + (3 - length xs mod 3) mod 3 = 4 * ((length xs + 2) div 3)"
proof (induction xs rule: b64_sextets.induct)
  case (1 a b c rest)
  have "(5 + length rest) div 3 = Suc ((Suc (Suc (length rest))) div 3)" by presburger
  with 1 show ?case by simp
qed auto

lemma b64_sextets_length_mod: "length (b64_sextets xs) mod 4 \<noteq> 1"
  by (induction xs rule: b64_sextets.induct) auto

lemma strip_padding_btoa:
  assumes "\<forall>c\<in>set cs. c \<noteq> CHR ''=''" "(length cs + k) mod 4 = 0" "k \<le> 2"
  shows "strip_padding (cs @ replicate k (CHR ''='')) = cs"
proof -
  have last_cs: "cs \<noteq> [] \<Longrightarrow> last cs \<noteq> CHR ''=''"
    using assms(1) last_in_set by blast
  consider "k = 0" | "k = 1" | "k = 2" using assms(3) by linarith
  then show ?thesis
  proof cases
    case 1
    then show ?thesis using last_cs by (auto simp: strip_padding_def)
  next
    case 2
    then have "cs @ replicate k (CHR ''='') = cs @ [CHR ''='']" by simp
    then show ?thesis using assms(2) 2 last_cs by (auto simp: strip_padding_def)
  next
    case 3
    then have "cs @ replicate k (CHR ''='') = (cs @ [CHR ''='']) @ [CHR ''='']"
      by (simp add: numeral_2_eq_2)
    then show ?thesis using assms(2) 3 by (simp add: strip_padding_def butlast_append)
  qed
qed

lemma atob_btoa: "atob (btoa s) = Inr s"
proof -
  let ?codes = "map of_char s :: nat list"
  let ?sx = "b64_sextets ?codes"
  let ?cs = "map b64_char ?sx"
  let ?k = "(3 - length s mod 3) mod 3"
  have codes: "\<forall>x\<in>set ?codes. x < 256" by auto
  have sx: "\<forall>y\<in>set ?sx. y < 64" using codes by (rule b64_sextets_bound)
  have nows: "filter (\<lambda>c. \<not> ascii_whitespace c) (btoa s) = btoa s"
    using sx by (auto simp: btoa_def filter_id_conv b64_char_not_whitespace pad_not_whitespace)
  have nopad: "\<forall>c\<in>set ?cs. c \<noteq> CHR ''=''" using sx by (auto simp: b64_char_not_pad)
  have len: "(length ?cs + ?k) mod 4 = 0" using b64_sextets_length [of ?codes] by simp
  have strip: "strip_padding (btoa s) = ?cs"
    unfolding btoa_def using nopad len by (rule strip_padding_btoa) simp
  have l1: "length ?cs mod 4 \<noteq> 1" using b64_sextets_length_mod [of ?codes] by simp
  have valid: "\<not> list_ex (\<lambda>c. b64_index c = 64) ?cs"
    using sx by (auto simp: list_ex_iff b64_index_char)
  have idx: "map b64_index ?cs = ?sx" using sx by (simp add: map_idI b64_index_char)
  have oct: "b64_octets ?sx = ?codes" using codes by (rule b64_octets_sextets)
  have chars: "map char_of ?codes = s" by (simp add: map_idI)
  show ?thesis
    unfolding atob_def nows strip Let_def idx oct chars using l1 valid by simp
qed

lemma byte_of_code: "word_of_nat (unat b mod 256) = b" for b :: "8 word"
proof -
  have "unat b < 256" using unsigned_less [of b, where 'a = nat] by simp
  then show ?thesis by simp
qed

lemma decode_encodeBase64: "decodeBase64 (encodeBase64 bytes) = Inr bytes"
  unfolding decodeBase64_def encodeBase64_def atob_btoa
  by (simp add: o_def byte_of_code)

section \<open>What the decoder returns\<close>

lemma getInt16_guarded:
  "offset + 1 < length bytes \<Longrightarrow>
     getInt16 bytes offset = Inr (sint (word_cat (bytes ! (offset + 1)) (bytes ! offset) :: 16 word))"
  by (simp add: getInt16_def)

text \<open>
  The inner loop raises nothing: its guard keeps every read inside the view. An element
  is written when its index is visited and its two bytes are there.
\<close>

lemma fillChannel_result:
  "fillChannel bytes nc ch idxs cd =
     Inr (map (\<lambda>j. if j \<in> set idxs \<and> (j * nc + ch) * 2 + 1 < length bytes
                    then pcmSample bytes ((j * nc + ch) * 2) else cd ! j) [0 ..< length cd])"
proof (induction idxs arbitrary: cd)
  case Nil
  show ?case by (simp add: map_nth)
next
  case (Cons i rest)
  show ?case
  proof (cases "(i * nc + ch) * 2 + 1 < length bytes")
    case True
    then show ?thesis
      by (auto simp: Let_def getInt16_guarded Cons.IH store_def pcmSample_def nth_list_update)
  next
    case False
    then show ?thesis
      by (auto simp: Let_def Cons.IH)
  qed
qed

lemma frame_in_range:
  assumes "j < length bytes div (2 * nc)" "ch < nc"
  shows "(j * nc + ch) * 2 + 1 < length bytes"
proof -
  have nc: "0 < 2 * nc" using assms(2) by simp
  have "Suc j \<le> length bytes div (2 * nc)" using assms(1) by simp
  then have "Suc j * (2 * nc) \<le> length bytes"
    using nc by (simp add: less_eq_div_iff_mult_less_eq)
  moreover have "(j * nc + ch) * 2 + 1 < Suc j * (2 * nc)"
    using assms(2) by (simp add: algebra_simps)
  ultimately show ?thesis by linarith
qed

lemma floor_frameCount: "nat \<lfloor>real n / real d\<rfloor> = n div d"
  by (simp add: floor_divide_of_nat_eq)

lemma ceiling_frameCount: "n div d \<le> nat \<lceil>real n / real d\<rceil>"
proof -
  have "\<lfloor>real n / real d\<rfloor> \<le> \<lceil>real n / real d\<rceil>" by (rule floor_le_ceiling)
  then have "nat \<lfloor>real n / real d\<rfloor> \<le> nat \<lceil>real n / real d\<rceil>" by linarith
  then show ?thesis by (simp add: floor_frameCount)
qed

lemma fillChannel_full:
  assumes "ch < nc" "length cd = length bytes div (2 * nc)"
  shows "fillChannel bytes nc ch [0 ..< nat \<lceil>real (length bytes) / real (2 * nc)\<rceil>] cd
         = Inr (map (\<lambda>i. pcmSample bytes ((i * nc + ch) * 2)) [0 ..< length bytes div (2 * nc)])"
proof -
  have "j < length bytes div (2 * nc) \<Longrightarrow> j < nat \<lceil>real (length bytes) / real (2 * nc)\<rceil>" for j
    using ceiling_frameCount [of "length bytes" "2 * nc"] by linarith
  then show ?thesis
    unfolding fillChannel_result using assms frame_in_range [of _ bytes nc ch]
    by (auto simp del: of_nat_mult)
qed

lemma fillBuffer_result:
  assumes "length (channelData b) = nc"
    and "\<forall>c<nc. length (channelData b ! c) = length bytes div (2 * nc)"
    and "\<forall>c\<in>set chs. c < nc"
  shows "fillBuffer bytes nc (real (length bytes) / real (2 * nc)) chs b
         = Inr (b\<lparr>channelData :=
                  map (\<lambda>c. if c \<in> set chs
                            then map (\<lambda>i. pcmSample bytes ((i * nc + c) * 2))
                                   [0 ..< length bytes div (2 * nc)]
                            else channelData b ! c) [0 ..< nc]\<rparr>)"
  using assms
proof (induction chs arbitrary: b)
  case Nil
  have "map ((!) (channelData b)) [0 ..< length (channelData b)] = channelData b"
    by (rule map_nth)
  with Nil show ?case by simp
next
  case (Cons ch rest)
  let ?row = "\<lambda>c. map (\<lambda>i. pcmSample bytes ((i * nc + c) * 2)) [0 ..< length bytes div (2 * nc)]"
  let ?b1 = "b\<lparr>channelData := (channelData b)[ch := ?row ch]\<rparr>"
  have ch: "ch < nc" using Cons.prems(3) by simp
  have fc: "fillChannel bytes nc ch [0 ..< nat \<lceil>real (length bytes) / real (2 * nc)\<rceil>]
              (channelData b ! ch) = Inr (?row ch)"
    using ch Cons.prems(2) by (intro fillChannel_full) auto
  have l1: "length (channelData ?b1) = nc" using Cons.prems(1) by simp
  have l2: "\<forall>c<nc. length (channelData ?b1 ! c) = length bytes div (2 * nc)"
  proof (intro allI impI)
    fix c assume c: "c < nc"
    show "length (channelData ?b1 ! c) = length bytes div (2 * nc)"
    proof (cases "c = ch")
      case True
      then show ?thesis using c Cons.prems(1) by simp
    next
      case False
      then show ?thesis using c Cons.prems(1,2) by simp
    qed
  qed
  have l3: "\<forall>c\<in>set rest. c < nc" using Cons.prems(3) by simp
  have step: "fillBuffer bytes nc (real (length bytes) / real (2 * nc)) (ch # rest) b
              = fillBuffer bytes nc (real (length bytes) / real (2 * nc)) rest ?b1"
    using fc by (simp del: of_nat_mult)
  show ?case
    unfolding step Cons.IH [OF l1 l2 l3]
    using Cons.prems(1) by (auto simp: nth_list_update)
qed

lemma pcmToAudioBuffer_empty:
  "pcmToAudioBuffer [] ctx rate nc = createBuffer ctx nc 1 rate"
  by (simp add: pcmToAudioBuffer_def)

text \<open>
  An input shorter than one frame: the frame count of line 32 is below one, the length
  handed to \<open>createBuffer\<close> is zero, and \<open>createBuffer\<close> raises.
\<close>

lemma pcmToAudioBuffer_short:
  assumes "bytes \<noteq> []" "length bytes < 2 * nc"
  shows "pcmToAudioBuffer bytes ctx rate nc = Inl NotSupportedError"
  using assms
  by (simp add: pcmToAudioBuffer_def Let_def floor_frameCount createBuffer_def del: of_nat_mult)

text \<open>
  An input of at least one frame, whatever its length: the buffer holds the complete
  frames, and bytes after the last complete frame are not read.
\<close>

lemma pcmToAudioBuffer_full:
  assumes "0 < nc" "nc \<le> maxChannels ctx" "minSampleRate ctx \<le> rate" "rate \<le> maxSampleRate ctx"
    and "2 * nc \<le> length bytes"
  shows "pcmToAudioBuffer bytes ctx rate nc
         = Inr \<lparr>numberOfChannels = nc, frameLength = length bytes div (2 * nc),
                sampleRate = rate, channelData = fullFrames bytes nc\<rparr>"
proof -
  let ?F = "length bytes div (2 * nc)"
  let ?b = "\<lparr>numberOfChannels = nc, frameLength = ?F, sampleRate = rate,
             channelData = replicate nc (replicate ?F (0::real))\<rparr>"
  have F: "0 < ?F" using assms(1,5) by (simp add: div_greater_zero_iff)
  have ne: "length bytes \<noteq> 0" using assms(1,5) by auto
  have cb: "createBuffer ctx nc ?F rate = Inr ?b"
    using assms F by (simp add: createBuffer_def)
  have fb: "fillBuffer bytes nc (real (length bytes) / real (2 * nc)) [0 ..< nc] ?b
            = Inr (?b\<lparr>channelData := fullFrames bytes nc\<rparr>)"
    by (subst fillBuffer_result [where nc = nc]) (auto simp: fullFrames_def)
  show ?thesis
    using ne cb fb
    by (simp add: pcmToAudioBuffer_def Let_def floor_frameCount del: of_nat_mult)
qed

section \<open>What the encoder writes\<close>

lemma clamped_scaled_range:
  fixes x :: real
  defines "c \<equiv> max (- 1) (min 1 x)"
  shows "c < 0 \<Longrightarrow> - 32768 \<le> \<lceil>c * 32768\<rceil> \<and> \<lceil>c * 32768\<rceil> \<le> 0"
    and "\<not> c < 0 \<Longrightarrow> 0 \<le> \<lfloor>c * 32767\<rfloor> \<and> \<lfloor>c * 32767\<rfloor> \<le> 32767"
proof -
  have c: "- 1 \<le> c" "c \<le> 1" by (auto simp: c_def)
  { assume "c < 0"
    then have "- 32768 \<le> c * 32768" "c * 32768 \<le> 0" using c by auto
    then show "- 32768 \<le> \<lceil>c * 32768\<rceil> \<and> \<lceil>c * 32768\<rceil> \<le> 0"
      by (simp add: le_ceiling_iff ceiling_le_iff) }
  { assume "\<not> c < 0"
    then have "0 \<le> c * 32767" "c * 32767 \<le> 32767" using c by auto
    then show "0 \<le> \<lfloor>c * 32767\<rfloor> \<and> \<lfloor>c * 32767\<rfloor> \<le> 32767"
      by (simp add: le_floor_iff floor_le_iff) }
qed

lemma sampleToInt16_Finite:
  "sampleToInt16 (Finite x) =
     word_of_int (if max (- 1) (min 1 x) < 0 then \<lceil>max (- 1) (min 1 x) * 32768\<rceil>
                  else \<lfloor>max (- 1) (min 1 x) * 32767\<rfloor>)"
proof -
  let ?c = "max (- 1) (min 1 x)"
  have "?c < 0 \<Longrightarrow> ?c * 32768 < 0" by (simp add: mult_less_0_iff)
  moreover have "\<not> ?c < 0 \<Longrightarrow> \<not> ?c * 32767 < 0" by (simp add: mult_less_0_iff)
  ultimately show ?thesis
    by (simp add: sampleToInt16_def Let_def)
qed

lemma sint_int16: "- 32768 \<le> v \<Longrightarrow> v \<le> 32767 \<Longrightarrow> sint (word_of_int v :: 16 word) = v"
  by (simp add: sint_sbintrunc' signed_take_bit_int_eq_self)

lemma spec_encode_sample_eq:
  "spec_encode_sample x =
     (if max (- 1) (min 1 x) < 0 then \<lceil>max (- 1) (min 1 x) * 32768\<rceil>
      else \<lfloor>max (- 1) (min 1 x) * 32767\<rfloor>)"
proof -
  let ?c = "max (- 1) (min 1 x)"
  show ?thesis
  proof (cases "?c < 0")
    case True
    then have "\<not> 0 \<le> ?c * 32768" by (simp add: mult_less_0_iff not_le)
    then show ?thesis using True by (simp add: spec_encode_sample_def Let_def ceiling_def)
  next
    case False
    then have "0 \<le> ?c * 32767" by simp
    then show ?thesis using False by (simp add: spec_encode_sample_def Let_def)
  qed
qed

lemma spec_encode_sample_range: "- 32768 \<le> spec_encode_sample x \<and> spec_encode_sample x \<le> 32767"
  using clamped_scaled_range [of x] by (auto simp: spec_encode_sample_eq)

lemma sint_sampleToInt16: "sint (sampleToInt16 (Finite x)) = spec_encode_sample x"
proof -
  have "sampleToInt16 (Finite x) = word_of_int (spec_encode_sample x)"
    by (simp only: sampleToInt16_Finite spec_encode_sample_eq)
  then show ?thesis
    using spec_encode_sample_range [of x] by (simp only: sint_int16)
qed

lemma sampleToInt16_special:
  "sampleToInt16 PosInf = sampleToInt16 (Finite 1)"
  "sampleToInt16 NegInf = sampleToInt16 (Finite (- 1))"
  "sampleToInt16 NaN = 0"
  by (simp_all add: sampleToInt16_def Let_def)

lemma word_cat_bytes:
  "(word_cat (ucast (drop_bit 8 w) :: 8 word) (ucast w :: 8 word) :: 16 word) = w"
  for w :: "16 word"
  by (rule bit_word_eqI) (auto simp: bit_simps)

lemma length_int16Bytes: "length (int16Bytes ws) = 2 * length ws"
  by (induction ws) (auto simp: int16Bytes_def)

lemma int16Bytes_Cons: "int16Bytes (w # ws) = ucast w # ucast (drop_bit 8 w) # int16Bytes ws"
  by (simp add: int16Bytes_def)

lemma int16Bytes_nth:
  "i < length ws \<Longrightarrow> int16Bytes ws ! (2 * i) = ucast (ws ! i)
     \<and> int16Bytes ws ! (2 * i + 1) = ucast (drop_bit 8 (ws ! i))"
proof (induction ws arbitrary: i)
  case Nil
  then show ?case by simp
next
  case (Cons w ws)
  show ?case
  proof (cases i)
    case 0
    then show ?thesis by (simp add: int16Bytes_Cons)
  next
    case (Suc j)
    with Cons.prems have "j < length ws" by simp
    from Cons.IH [OF this] show ?thesis using Suc by (simp add: int16Bytes_Cons)
  qed
qed

lemma pcmSample_int16Bytes:
  "i < length ws \<Longrightarrow> pcmSample (int16Bytes ws) (i * 2) = real_of_int (sint (ws ! i)) / 32768"
  using int16Bytes_nth [of i ws] by (simp add: pcmSample_def word_cat_bytes mult.commute)

lemma fullFrames_int16Bytes:
  "fullFrames (int16Bytes ws) 1 = [map (\<lambda>w. real_of_int (sint w) / 32768) ws]"
proof -
  have "map (\<lambda>i. pcmSample (int16Bytes ws) (i * 2)) [0 ..< length ws]
        = map (\<lambda>w. real_of_int (sint w) / 32768) ws"
  proof (rule nth_equalityI)
    show "length (map (\<lambda>i. pcmSample (int16Bytes ws) (i * 2)) [0 ..< length ws])
          = length (map (\<lambda>w. real_of_int (sint w) / 32768) ws)" by simp
  next
    fix i assume "i < length (map (\<lambda>i. pcmSample (int16Bytes ws) (i * 2)) [0 ..< length ws])"
    then have i: "i < length ws" by simp
    then show "map (\<lambda>i. pcmSample (int16Bytes ws) (i * 2)) [0 ..< length ws] ! i
               = map (\<lambda>w. real_of_int (sint w) / 32768) ws ! i"
      using pcmSample_int16Bytes [OF i] by simp
  qed
  then show ?thesis by (simp add: fullFrames_def length_int16Bytes)
qed

lemma low_byte: "(word_of_int (sint w mod 256) :: 8 word) = ucast w" for w :: "16 word"
proof -
  have "sint w mod 256 = take_bit 8 (sint w)" by (simp add: take_bit_eq_mod)
  then show ?thesis
    by (simp only:) (rule bit_word_eqI, auto simp: bit_simps)
qed

lemma high_byte:
  "(word_of_int (sint w div 256 mod 256) :: 8 word) = ucast (drop_bit 8 w)" for w :: "16 word"
proof -
  have "sint w div 256 mod 256 = take_bit 8 (drop_bit 8 (sint w))"
    by (simp add: take_bit_eq_mod drop_bit_eq_div)
  then show ?thesis
    by (simp only:) (rule bit_word_eqI, auto simp: bit_simps)
qed

lemma spec_le16_sint: "spec_le16 (sint w) = [ucast w, ucast (drop_bit 8 w)]" for w :: "16 word"
  by (simp only: spec_le16_def low_byte high_byte)

lemma int16Bytes_spec: "int16Bytes (map sampleToInt16 (map Finite samples)) = spec_encode samples"
proof -
  have "int16Bytes ws = concat (map (\<lambda>w. spec_le16 (sint w)) ws)" for ws
    by (simp only: int16Bytes_def spec_le16_sint)
  then show ?thesis
    by (simp add: spec_encode_def o_def sint_sampleToInt16)
qed

text \<open>
  The distance between a clamped sample and the value it comes back as: less than two
  steps of \<open>1 / 32768\<close>, and less than one step for a sample that is not positive.
\<close>

lemma quantisation_error:
  fixes x :: real
  defines "c \<equiv> max (- 1) (min 1 x)"
  defines "d \<equiv> real_of_int (spec_encode_sample x) / 32768"
  shows "\<bar>d - c\<bar> < 2 / 32768 \<and> (c \<le> 0 \<longrightarrow> \<bar>d - c\<bar> < 1 / 32768)"
proof (cases "c < 0")
  case True
  define k where "k = real_of_int \<lceil>c * 32768\<rceil>"
  have d: "d = k / 32768"
    using True by (simp add: d_def k_def spec_encode_sample_eq c_def)
  have "k - 1 < c * 32768" "c * 32768 \<le> k"
    unfolding k_def using ceiling_correct [of "c * 32768"] by auto
  then show ?thesis using True unfolding d by (auto simp: abs_if field_simps)
next
  case False
  have c: "c \<le> 1" by (simp add: c_def)
  define k where "k = real_of_int \<lfloor>c * 32767\<rfloor>"
  have d: "d = k / 32768"
    using False by (simp add: d_def k_def spec_encode_sample_eq c_def)
  have "k \<le> c * 32767" "c * 32767 < k + 1"
    unfolding k_def using floor_correct [of "c * 32767"] by auto
  then show ?thesis using False c unfolding d by (auto simp: abs_if field_simps)
qed

lemma decodeAudio_createPCMBlob:
  assumes "1 \<le> maxChannels ctx" "minSampleRate ctx \<le> 24000" "24000 \<le> maxSampleRate ctx"
    and "data \<noteq> []"
  shows "decodeAudio ctx (createPCMBlob data)
         = Inr \<lparr>numberOfChannels = 1, frameLength = length data, sampleRate = 24000,
                channelData = [map (\<lambda>d. real_of_int (sint (sampleToInt16 d)) / 32768) data]\<rparr>"
proof -
  let ?ws = "map sampleToInt16 data"
  have len: "2 * 1 \<le> length (int16Bytes ?ws)"
    using assms(4) by (cases data) (simp_all add: length_int16Bytes)
  have "pcmToAudioBuffer (int16Bytes ?ws) ctx 24000 1
        = Inr \<lparr>numberOfChannels = 1, frameLength = length (int16Bytes ?ws) div (2 * 1),
               sampleRate = 24000, channelData = fullFrames (int16Bytes ?ws) 1\<rparr>"
    using assms(1-3) len by (intro pcmToAudioBuffer_full) auto
  moreover have "fullFrames (int16Bytes ?ws) 1
        = [map (\<lambda>d. real_of_int (sint (sampleToInt16 d)) / 32768) data]"
    by (simp only: fullFrames_int16Bytes map_map o_def)
  ultimately show ?thesis
    unfolding decodeAudio_def createPCMBlob_def decode_encodeBase64
    by (simp add: length_int16Bytes)
qed

lemma sampleToInt16_example: "sampleToInt16 (Finite (131071 / 131072)) = 32766"
  by (simp add: sampleToInt16_Finite)

lemma sampleToInt16_example_neg: "sampleToInt16 (Finite (- (1 / 2))) = - 16384"
  by (simp add: sampleToInt16_Finite)

section \<open>The codec claims\<close>

text \<open>
  C4, as the specification states it, fails. The sample \<open>131071 / 131072\<close>, which is
  \<open>1 - 1 / 131072\<close> and a single-precision value inside \<open>[-1, 1]\<close>, is encoded as 32766
  and comes back as \<open>32766 / 32768\<close>, which is 1.75 steps of \<open>1 / 32768\<close> away.
\<close>

theorem roundtrip_one_step_counterexample:
  "decodeAudio minimalContext (createPCMBlob [Finite (131071 / 131072)])
     = Inr \<lparr>numberOfChannels = 1, frameLength = 1, sampleRate = 24000,
            channelData = [[32766 / 32768]]\<rparr>
   \<and> 1 / 32768 < \<bar>32766 / 32768 - 131071 / (131072 :: real)\<bar>"
  by (simp add: decodeAudio_createPCMBlob sampleToInt16_example minimalContext_def)

text \<open>
  C4, amended: for every non-empty sequence of finite samples, decoding the encoding (at
  24 kHz, one channel, in a context that supports them) gives as many samples, each less
  than two steps of \<open>1 / 32768\<close> away from the sample clamped to \<open>[-1, 1]\<close>, and less
  than one step away when the sample is not positive.
\<close>

theorem roundtrip_within_two_steps:
  assumes "1 \<le> maxChannels ctx" "minSampleRate ctx \<le> 24000" "24000 \<le> maxSampleRate ctx"
    and "samples \<noteq> []"
  shows "decodeAudio ctx (createPCMBlob (map Finite samples))
           = Inr \<lparr>numberOfChannels = 1, frameLength = length samples, sampleRate = 24000,
                  channelData =
                    [map (\<lambda>x. real_of_int (sint (sampleToInt16 (Finite x))) / 32768) samples]\<rparr>
         \<and> (\<forall>x. \<bar>real_of_int (sint (sampleToInt16 (Finite x))) / 32768 - max (- 1) (min 1 x)\<bar>
                  < 2 / 32768
                \<and> (x \<le> 0 \<longrightarrow>
                     \<bar>real_of_int (sint (sampleToInt16 (Finite x))) / 32768 - max (- 1) (min 1 x)\<bar>
                       < 1 / 32768))"
proof -
  have ne: "map Finite samples \<noteq> []" using assms(4) by simp
  have "decodeAudio ctx (createPCMBlob (map Finite samples))
          = Inr \<lparr>numberOfChannels = 1, frameLength = length (map Finite samples),
                 sampleRate = 24000,
                 channelData =
                   [map (\<lambda>d. real_of_int (sint (sampleToInt16 d)) / 32768) (map Finite samples)]\<rparr>"
    using assms(1-3) ne by (rule decodeAudio_createPCMBlob)
  moreover have "map (\<lambda>d. real_of_int (sint (sampleToInt16 d)) / 32768) (map Finite samples)
                 = map (\<lambda>x. real_of_int (sint (sampleToInt16 (Finite x))) / 32768) samples"
    by (simp only: map_map o_def)
  moreover have "\<bar>real_of_int (sint (sampleToInt16 (Finite x))) / 32768 - max (- 1) (min 1 x)\<bar>
                   < 2 / 32768
                 \<and> (x \<le> 0 \<longrightarrow>
                      \<bar>real_of_int (sint (sampleToInt16 (Finite x))) / 32768 - max (- 1) (min 1 x)\<bar>
                        < 1 / 32768)" for x
  proof -
    have "x \<le> 0 \<Longrightarrow> max (- 1) (min 1 x) \<le> 0" by simp
    then show ?thesis
      using quantisation_error [of x] by (simp only: sint_sampleToInt16) blast
  qed
  ultimately show ?thesis by (simp only: length_map) blast
qed

theorem roundtrip_within_two_steps_witness:
  "1 \<le> maxChannels minimalContext \<and> minSampleRate minimalContext \<le> 24000
   \<and> 24000 \<le> maxSampleRate minimalContext \<and> [131071 / 131072, - (1 / 2) :: real] \<noteq> []
   \<and> decodeAudio minimalContext (createPCMBlob [Finite (131071 / 131072), Finite (- (1 / 2))])
       = Inr \<lparr>numberOfChannels = 1, frameLength = 2, sampleRate = 24000,
              channelData = [[32766 / 32768, - (16384 / 32768)]]\<rparr>
   \<and> \<bar>32766 / 32768 - 131071 / (131072 :: real)\<bar> < 2 / 32768
   \<and> \<bar>- (16384 / 32768) - (- (1 / 2) :: real)\<bar> < 1 / 32768"
  using roundtrip_within_two_steps [of minimalContext "[131071 / 131072, - (1 / 2)]"]
  by (simp add: minimalContext_def sampleToInt16_example sampleToInt16_example_neg)

text \<open>
  C5: \<open>createPCMBlob\<close> is a total function, and what it encodes is what the
  specification describes. For finite samples the bytes under the transport encoding are
  those of \<open>spec_encode\<close>: clamped, scaled by 32768 or 32767, rounded towards zero, low
  byte first. The number stored for a sample is the specification's integer itself, which
  lies between -32768 and 32767, so the 16-bit store never wraps. An infinite sample is
  encoded as 1 or -1 is, NaN as 0. For any input at all the transport decoding of the
  result is two bytes for each sample.
\<close>

theorem createPCMBlob_refines_spec:
  "createPCMBlob (map Finite samples) = encodeBase64 (spec_encode samples)
   \<and> decodeBase64 (createPCMBlob (map Finite samples)) = Inr (spec_encode samples)
   \<and> sint (sampleToInt16 (Finite x)) = spec_encode_sample x
   \<and> - 32768 \<le> spec_encode_sample x \<and> spec_encode_sample x \<le> 32767
   \<and> sampleToInt16 PosInf = sampleToInt16 (Finite 1)
   \<and> sampleToInt16 NegInf = sampleToInt16 (Finite (- 1))
   \<and> sampleToInt16 NaN = 0
   \<and> decodeBase64 (createPCMBlob data) = Inr (int16Bytes (map sampleToInt16 data))
   \<and> length (int16Bytes (map sampleToInt16 data)) = 2 * length data"
  unfolding createPCMBlob_def int16Bytes_spec decode_encodeBase64
  using spec_encode_sample_range [of x]
  by (simp add: sint_sampleToInt16 sampleToInt16_special length_int16Bytes)

text \<open>
  C6, as the specification states it, fails: for an empty input the decoder returns a
  buffer of one frame, not of none.
\<close>

theorem pcmToAudioBuffer_empty_counterexample:
  "pcmToAudioBuffer [] minimalContext 24000 1
     = Inr \<lparr>numberOfChannels = 1, frameLength = 1, sampleRate = 24000, channelData = [[0]]\<rparr>
   \<and> pcmToAudioBuffer [] minimalContext 24000 1
     \<noteq> Inr \<lparr>numberOfChannels = 1, frameLength = 0, sampleRate = 24000, channelData = [[]]\<rparr>"
  by (simp add: pcmToAudioBuffer_def createBuffer_def minimalContext_def)

text \<open>
  C6, amended: decoding an empty byte input yields, in a context that supports the
  channel count and the sample rate, a buffer of one silent frame in each channel, not an
  error.
\<close>

theorem pcmToAudioBuffer_empty_one_frame:
  assumes "0 < nc" "nc \<le> maxChannels ctx" "minSampleRate ctx \<le> rate" "rate \<le> maxSampleRate ctx"
  shows "pcmToAudioBuffer [] ctx rate nc
         = Inr \<lparr>numberOfChannels = nc, frameLength = 1, sampleRate = rate,
                channelData = replicate nc [0]\<rparr>"
  using assms by (simp add: pcmToAudioBuffer_def createBuffer_def)

theorem pcmToAudioBuffer_empty_one_frame_witness:
  "(0::nat) < 2 \<and> 2 \<le> maxChannels minimalContext \<and> minSampleRate minimalContext \<le> 24000
   \<and> 24000 \<le> maxSampleRate minimalContext
   \<and> pcmToAudioBuffer [] minimalContext 24000 2
       = Inr \<lparr>numberOfChannels = 2, frameLength = 1, sampleRate = 24000,
              channelData = [[0], [0]]\<rparr>"
  using pcmToAudioBuffer_empty_one_frame [of 2 minimalContext 24000]
  by (simp add: minimalContext_def numeral_2_eq_2)

text \<open>
  C7 asks that a non-empty input whose length is not a multiple of the frame size is
  decoded to its complete frames without an error. For an input of at least one frame
  the decoder does so (\<open>pcmToAudioBuffer_full\<close>). For an input shorter than one frame it
  does not: one byte, one channel, has no complete frame, \<open>createBuffer\<close> is asked for
  a buffer of length zero and raises \<open>NotSupportedError\<close>, the case the guard of line 30
  avoids for the empty input.
\<close>

theorem pcmToAudioBuffer_one_byte_raises:
  "pcmToAudioBuffer [1] minimalContext 24000 1 = Inl NotSupportedError"
  by (simp add: pcmToAudioBuffer_short)

section \<open>Updating the current slide\<close>

lemma array_get_set: "array_get (array_set xs i v) j = (if j = i then v else array_get xs j)"
  by (auto simp: array_get_def array_set_def nth_append)

lemma length_array_set: "i < length xs \<Longrightarrow> length (array_set xs i v) = length xs"
  by (simp add: array_set_def)

text \<open>
  C10: an update of the current slide leaves the id, the title and the sources of the
  presentation as they were, and every element of the slide array other than the one at
  the active index. When the index is inside the array the array keeps its length. The
  slide at the index becomes the old slide overridden by the update, so a property the
  update does not name keeps its value.
\<close>

theorem handleUpdateCurrentSlide_frame:
  "id' (handleUpdateCurrentSlide i updates prev) = id' prev
   \<and> title (handleUpdateCurrentSlide i updates prev) = title prev
   \<and> sources (handleUpdateCurrentSlide i updates prev) = sources prev
   \<and> (\<forall>j. j \<noteq> i \<longrightarrow>
          array_get (slides (handleUpdateCurrentSlide i updates prev)) j
            = array_get (slides prev) j)
   \<and> (i < length (slides prev) \<longrightarrow>
          length (slides (handleUpdateCurrentSlide i updates prev)) = length (slides prev))
   \<and> array_get (slides (handleUpdateCurrentSlide i updates prev)) i
         = Some (spread (array_get (slides prev) i) ++ spread updates)
   \<and> (\<forall>k. k \<notin> dom (spread updates) \<longrightarrow>
          (spread (array_get (slides prev) i) ++ spread updates) k
            = spread (array_get (slides prev) i) k)"
  by (simp add: handleUpdateCurrentSlide_def Let_def array_get_set length_array_set
      map_add_dom_app_simps)

theorem handleUpdateCurrentSlide_frame_witness:
  "(1::nat) \<noteq> 0
   \<and> array_get (slides (handleUpdateCurrentSlide 0 (Some [''title'' \<mapsto> JString ''Neu''])
                          initialPresentation)) 1
       = array_get (slides initialPresentation) 1
   \<and> (0::nat) < length (slides initialPresentation)
   \<and> length (slides (handleUpdateCurrentSlide 0 (Some [''title'' \<mapsto> JString ''Neu''])
                       initialPresentation)) = 1
   \<and> ''layout'' \<notin> dom (spread (Some [''title'' \<mapsto> JString ''Neu'']))
   \<and> (spread (array_get (slides initialPresentation) 0)
         ++ spread (Some [''title'' \<mapsto> JString ''Neu''])) ''layout'' = Some (JString ''TITLE'')
   \<and> (spread (array_get (slides initialPresentation) 0)
         ++ spread (Some [''title'' \<mapsto> JString ''Neu''])) ''title'' = Some (JString ''Neu'')"
  using handleUpdateCurrentSlide_frame
          [of 0 "Some [''title'' \<mapsto> JString ''Neu'']" initialPresentation]
  by (simp add: initialPresentation_def spread_def array_get_def)

section \<open>Tool calls\<close>

text \<open>
  When every call of \<open>create_presentation\<close> carries its arguments, the loop raises
  nothing and sends one response for each call, with the id and the name of the call, in
  the order of the calls, whatever the names are.
\<close>

lemma dispatchCalls_responses:
  assumes "\<forall>fc\<in>set fcs. name fc = Some ''create_presentation'' \<longrightarrow> args fc \<noteq> None"
  shows "snd (snd (dispatchCalls fcs s out)) = None
         \<and> filter isToolResponse (fst (snd (dispatchCalls fcs s out)))
             = filter isToolResponse out @ map (\<lambda>fc. SendToolResponse (callId fc) (name fc)) fcs"
  using assms
proof (induction fcs arbitrary: s out)
  case Nil
  then show ?case by simp
next
  case (Cons fc rest)
  then show ?case by (auto split: option.splits)
qed

text \<open>
  C8 asks for one response for every call received. A call of \<open>create_presentation\<close>
  without arguments gets none: reading \<open>topic\<close> raises before the response is sent, and
  the handler ends there, whatever the state of the session and the audio context are.
\<close>

theorem onmessage_call_without_args_unanswered:
  "onmessage ctx
     \<lparr>inputTranscription = None, outputTranscription = None,
      toolCall = Some [\<lparr>callId = Some ''call-1'', name = Some ''create_presentation'',
                        args = None\<rparr>],
      parts = None, interrupted = False\<rparr>
     s
   = (s, [], Some TypeError)"
  by (simp add: onmessage_def)

section \<open>Starting and stopping the session\<close>

text \<open>
  A stop that comes while a start is suspended at the request for the microphone finds
  no ref set and releases nothing; the start goes on when the request is granted, in
  the state \<open>idle\<close>. A start that fails after the grant leaves the stream held.
\<close>

lemma stop_while_start_pending:
  "onClick (fst (onClick initialApp))
     = (initialApp\<lparr>pendingStarts := [AwaitingUserMedia]\<rparr>, [])
   \<and> startLive_resume 0 Fulfilled (initialApp\<lparr>pendingStarts := [AwaitingUserMedia]\<rparr>)
     = (initialApp\<lparr>streamRef := True, pendingStarts := [AwaitingInputResume]\<rparr>,
        [NewAudioContext 16000, NewAudioContext 24000])"
  by (simp add: onClick_def startLive_def stopLive_def startLive_resume_def initialApp_def)

lemma start_fails_after_grant:
  "startLive_resume 0 ThrowsAtContexts (fst (startLive initialApp))
     = (initialApp\<lparr>streamRef := True\<rparr>, [Alert])"
  by (simp add: startLive_def startLive_resume_def catchStart_def initialApp_def)

text \<open>
  C9: \<open>startLive\<close> is called by the microphone button alone, and by it only in the state
  \<open>idle\<close>. In every other state, \<open>connecting\<close> or \<open>active\<close> (the component has no
  closing state), and whether or not an earlier start is still suspended, a request to
  start is turned away: the click runs \<open>stopLive\<close>, begins no call of \<open>startLive\<close>,
  requests no microphone, creates no audio context and opens no channel.
\<close>

theorem onClick_not_idle_starts_nothing:
  "connectionStatus s \<noteq> idle \<Longrightarrow>
     onClick s = stopLive s
     \<and> pendingStarts (fst (onClick s)) = pendingStarts s
     \<and> GetUserMedia \<notin> set (snd (onClick s))
     \<and> NewAudioContext r \<notin> set (snd (onClick s))
     \<and> LiveConnect \<notin> set (snd (onClick s))"
  by (simp add: onClick_def stopLive_def)

theorem onClick_not_idle_starts_nothing_witness:
  "connectionStatus (fst (startLive initialApp)) \<noteq> idle
   \<and> onClick (fst (startLive initialApp)) = stopLive (fst (startLive initialApp))
   \<and> pendingStarts (fst (onClick (fst (startLive initialApp)))) = [AwaitingUserMedia]
   \<and> snd (onClick (fst (startLive initialApp))) = []
   \<and> GetUserMedia \<notin> set (snd (onClick (fst (startLive initialApp))))"
  using onClick_not_idle_starts_nothing [of "fst (startLive initialApp)" 16000]
  by (simp add: onClick_def stopLive_def startLive_def initialApp_def)

end
